theory Spec2Isabelle
  imports Main
begin

section \<open>Strings of the page-management view\<close>

text \<open>
  A TypeScript string is a sequence of UTF-16 code units; a code unit is modelled by its
  number. The regular expressions of \<^verbatim>\<open>generateSlug\<close> carry no \<^verbatim>\<open>u\<close> flag, so they
  work on single code units as well.
\<close>

type_synonym code_unit = nat
type_synonym js_string = "code_unit list"

definition js :: "string \<Rightarrow> js_string" where
  "js s = map of_char s"

definition hyphen :: code_unit where
  "hyphen = 45"

definition is_upper :: "code_unit \<Rightarrow> bool" where
  "is_upper c = (65 \<le> c \<and> c \<le> 90)"

definition is_lower :: "code_unit \<Rightarrow> bool" where
  "is_lower c = (97 \<le> c \<and> c \<le> 122)"

definition is_digit :: "code_unit \<Rightarrow> bool" where
  "is_digit c = (48 \<le> c \<and> c \<le> 57)"

text \<open>
  The class \<^verbatim>\<open>\s\<close> of an ECMAScript regular expression, which is also what
  \<^verbatim>\<open>String.prototype.trim\<close> removes: TAB, LF, VT, FF, CR, SP, NBSP, U+1680,
  U+2000 to U+200A, U+2028, U+2029, U+202F, U+205F, U+3000 and U+FEFF.
\<close>

definition is_space :: "code_unit \<Rightarrow> bool" where
  "is_space c =
     ((9 \<le> c \<and> c \<le> 13) \<or> c = 32 \<or> c = 160 \<or> c = 5760 \<or> (8192 \<le> c \<and> c \<le> 8202)
      \<or> c = 8232 \<or> c = 8233 \<or> c = 8239 \<or> c = 8287 \<or> c = 12288 \<or> c = 65279)"

text \<open>
  \<^verbatim>\<open>String.prototype.toLowerCase\<close>, one code unit at a time. The letters A to Z move to
  a to z; U+0130 becomes the two units U+0069 U+0307 and U+212A (KELVIN SIGN) becomes k:
  these are the only mappings of the Unicode tables that produce an ASCII unit from a
  non-ASCII one. Every other mapping sends a unit outside ASCII and outside \<^verbatim>\<open>\s\<close> to
  units of the same kind, which the first \<^verbatim>\<open>replace\<close> of \<^verbatim>\<open>generateSlug\<close> deletes
  whether lower-cased or not; such units are left as they are.
\<close>

definition lower_unit :: "code_unit \<Rightarrow> js_string" where
  "lower_unit c =
     (if is_upper c then [c + 32]
      else if c = 304 then [105, 775]
      else if c = 8490 then [107]
      else [c])"

definition toLowerCase :: "js_string \<Rightarrow> js_string" where
  "toLowerCase s = concat (map lower_unit s)"

text \<open>\<^verbatim>\<open>.replace(/[^a-z0-9\s-]/g, '')\<close>: every unit outside the class is deleted.\<close>

definition kept :: "code_unit \<Rightarrow> bool" where
  "kept c = (is_lower c \<or> is_digit c \<or> is_space c \<or> c = hyphen)"

definition strip_others :: "js_string \<Rightarrow> js_string" where
  "strip_others s = filter kept s"

text \<open>
  \<^verbatim>\<open>.replace(/X+/g, '-')\<close>: scanning from the left, every maximal run of units
  of the class \<open>X\<close> is replaced by one hyphen.
\<close>

function replace_runs :: "(code_unit \<Rightarrow> bool) \<Rightarrow> js_string \<Rightarrow> js_string" where
  "replace_runs p [] = []"
| "replace_runs p (c # cs) =
     (if p c then hyphen # replace_runs p (dropWhile p cs) else c # replace_runs p cs)"
  by pat_completeness auto
termination
  by (relation "measure (\<lambda>(p, s). length s)") (auto simp: length_dropWhile_le less_Suc_eq_le)

definition is_hyphen :: "code_unit \<Rightarrow> bool" where
  "is_hyphen c = (c = hyphen)"

text \<open>\<^verbatim>\<open>String.prototype.trim\<close>: white space is removed at both ends.\<close>

definition trim :: "js_string \<Rightarrow> js_string" where
  "trim s = rev (dropWhile is_space (rev (dropWhile is_space s)))"

text \<open>
  \<^verbatim>\<open>generateSlug\<close> of the page-management view, in the order of the source:
  \<^verbatim>\<open>title.toLowerCase().replace(/[^a-z0-9\s-]/g, '').replace(/\s+/g, '-')
       .replace(/-+/g, '-').trim()\<close>.
\<close>

definition generateSlug :: "js_string \<Rightarrow> js_string" where
  "generateSlug title =
     trim (replace_runs is_hyphen (replace_runs is_space (strip_others (toLowerCase title))))"

text \<open>The units a slug is made of, and the slug before its last two steps.\<close>

definition slug_unit :: "code_unit \<Rightarrow> bool" where
  "slug_unit c = (is_lower c \<or> is_digit c \<or> c = hyphen)"

definition hyphenated :: "js_string \<Rightarrow> js_string" where
  "hyphenated title = replace_runs is_space (strip_others (toLowerCase title))"


section \<open>The store: tables and row-level security\<close>

text \<open>
  The rows of \<^verbatim>\<open>public.feedback_pages\<close> and \<^verbatim>\<open>public.feedback\<close>. Identifiers (UUIDs)
  and timestamps are numbers; \<^verbatim>\<open>updated_at\<close>, which no view reads, is left out.
\<close>

type_synonym uuid = nat
type_synonym timestamp = nat

record feedback_page =
  page_id :: uuid
  user_id :: uuid
  title :: js_string
  description :: "js_string option"
  slug :: js_string
  is_active :: bool
  created_at :: timestamp

record feedback_row =
  fb_id :: uuid
  message :: js_string
  feedback_page_id :: "uuid option"
  fb_created_at :: timestamp

record store =
  feedback_pages :: "feedback_page list"
  feedback :: "feedback_row list"

datatype command = Select | Insert | Update | Delete

datatype store_error = RlsViolation | UniqueViolation | ForeignKeyViolation | NotSingleRow

text \<open>
  A policy is a command and a predicate on the caller (\<^verbatim>\<open>auth.uid()\<close>, \<open>None\<close> for an
  anonymous caller) and the row. All policies of the migrations are permissive: a row
  passes a command when one policy for that command holds. \<^verbatim>\<open>auth.uid() = user_id\<close> is
  NULL, hence not true, for an anonymous caller.
\<close>

type_synonym 'r policy = "command \<times> (uuid option \<Rightarrow> 'r \<Rightarrow> bool)"

definition permitted :: "'r policy list \<Rightarrow> command \<Rightarrow> uuid option \<Rightarrow> 'r \<Rightarrow> bool" where
  "permitted ps cmd caller r = list_ex (\<lambda>(c, pr). c = cmd \<and> pr caller r) ps"

definition owns :: "uuid option \<Rightarrow> feedback_page \<Rightarrow> bool" where
  "owns caller r = (caller = Some (user_id r))"

text \<open>
  The policies on \<^verbatim>\<open>feedback_pages\<close>, in the order of the migrations: "Users can view /
  create / update / delete their own feedback pages", then "Anyone can view active
  feedback pages".
\<close>

definition feedback_pages_policies :: "feedback_page policy list" where
  "feedback_pages_policies =
     [(Select, owns), (Insert, owns), (Update, owns), (Delete, owns),
      (Select, \<lambda>caller r. is_active r)]"

text \<open>The rows of \<^verbatim>\<open>feedback_pages\<close> a caller's \<^verbatim>\<open>SELECT\<close> sees.\<close>

definition select_feedback_pages :: "uuid option \<Rightarrow> store \<Rightarrow> feedback_page list" where
  "select_feedback_pages caller st =
     filter (permitted feedback_pages_policies Select caller) (feedback_pages st)"

text \<open>
  \<^verbatim>\<open>feedback_page_id IN (SELECT id FROM public.feedback_pages WHERE is_active = true)\<close>:
  the sub-select runs as the caller, under the policies above; a NULL
  \<^verbatim>\<open>feedback_page_id\<close> is in no list.
\<close>

definition on_active_page :: "store \<Rightarrow> uuid option \<Rightarrow> feedback_row \<Rightarrow> bool" where
  "on_active_page st caller f =
     (case feedback_page_id f of
        None \<Rightarrow> False
      | Some p \<Rightarrow> p \<in> set (map page_id (filter is_active (select_feedback_pages caller st))))"

text \<open>"Anyone can view feedback for active pages", "Anyone can create feedback for active pages".\<close>

definition feedback_policies :: "store \<Rightarrow> feedback_row policy list" where
  "feedback_policies st = [(Select, on_active_page st), (Insert, on_active_page st)]"

definition select_feedback :: "uuid option \<Rightarrow> store \<Rightarrow> feedback_row list" where
  "select_feedback caller st =
     filter (permitted (feedback_policies st) Select caller) (feedback st)"

text \<open>
  \<^verbatim>\<open>INSERT INTO feedback_pages\<close>. The client sends title, description, slug and
  \<^verbatim>\<open>user_id\<close> (absent when there is no session); \<^verbatim>\<open>id\<close> and \<^verbatim>\<open>created_at\<close> take their
  defaults \<^verbatim>\<open>gen_random_uuid()\<close> and \<^verbatim>\<open>now()\<close>, given here as \<open>new_id\<close> and \<open>now\<close>, and
  \<^verbatim>\<open>is_active\<close> its default \<^verbatim>\<open>true\<close>. The policy's \<^verbatim>\<open>WITH CHECK\<close> is tested first, then the
  primary key and \<^verbatim>\<open>slug TEXT NOT NULL UNIQUE\<close>. A rejected insert leaves the store as it is.
\<close>

record page_insert =
  ins_title :: js_string
  ins_description :: js_string
  ins_slug :: js_string
  ins_user_id :: "uuid option"

definition insert_feedback_page ::
  "uuid option \<Rightarrow> uuid \<Rightarrow> timestamp \<Rightarrow> page_insert \<Rightarrow> store \<Rightarrow> store_error + store" where
  "insert_feedback_page caller new_id now ins st =
     (case ins_user_id ins of
        None \<Rightarrow> Inl RlsViolation
      | Some u \<Rightarrow>
          (let row = \<lparr>page_id = new_id, user_id = u, title = ins_title ins,
                      description = Some (ins_description ins), slug = ins_slug ins,
                      is_active = True, created_at = now\<rparr>
           in if \<not> permitted feedback_pages_policies Insert caller row then Inl RlsViolation
              else if new_id \<in> set (map page_id (feedback_pages st)) then Inl UniqueViolation
              else if ins_slug ins \<in> set (map slug (feedback_pages st)) then Inl UniqueViolation
              else Inr (st\<lparr>feedback_pages := feedback_pages st @ [row]\<rparr>)))"

text \<open>
  \<^verbatim>\<open>INSERT INTO feedback\<close>: the policy's \<^verbatim>\<open>WITH CHECK\<close>, the primary key, and the
  reference \<^verbatim>\<open>feedback_page_id UUID REFERENCES public.feedback_pages(id)\<close>.
\<close>

record feedback_insert =
  fi_message :: js_string
  fi_feedback_page_id :: "uuid option"

definition insert_feedback ::
  "uuid option \<Rightarrow> uuid \<Rightarrow> timestamp \<Rightarrow> feedback_insert \<Rightarrow> store \<Rightarrow> store_error + store" where
  "insert_feedback caller new_id now ins st =
     (let row = \<lparr>fb_id = new_id, message = fi_message ins,
                 feedback_page_id = fi_feedback_page_id ins, fb_created_at = now\<rparr>
      in if \<not> permitted (feedback_policies st) Insert caller row then Inl RlsViolation
         else if new_id \<in> set (map fb_id (feedback st)) then Inl UniqueViolation
         else if (case fi_feedback_page_id ins of
                    None \<Rightarrow> False
                  | Some p \<Rightarrow> p \<notin> set (map page_id (feedback_pages st)))
         then Inl ForeignKeyViolation
         else Inr (st\<lparr>feedback := feedback st @ [row]\<rparr>))"

text \<open>
  The query builder of the client: \<^verbatim>\<open>.order(col, { ascending: false })\<close> and
  \<^verbatim>\<open>.single()\<close>, which is an error unless exactly one row comes back. Rows with equal
  keys come in an order SQL leaves open; the model keeps one.
\<close>

definition order_desc :: "('r \<Rightarrow> timestamp) \<Rightarrow> 'r list \<Rightarrow> 'r list" where
  "order_desc key rows = rev (sort_key key rows)"

definition single :: "'r list \<Rightarrow> store_error + 'r" where
  "single rows = (case rows of [r] \<Rightarrow> Inr r | _ \<Rightarrow> Inl NotSingleRow)"

text \<open>
  The backend as the views see it: the store and the requests sent to it so far. Every
  store call of a view adds its request to the log. A request reaches the store and is
  answered; failures of the network are outside the model.
\<close>

datatype request =
    SelectPages
  | InsertPage page_insert
  | SelectPageBySlug js_string
  | SelectOwnPage uuid uuid
  | SelectFeedback uuid
  | InsertFeedback feedback_insert

record backend =
  db :: store
  requests :: "request list"

definition sent :: "request \<Rightarrow> backend \<Rightarrow> backend" where
  "sent r b = b\<lparr>requests := requests b @ [r]\<rparr>"

record toast =
  t_title :: string
  t_description :: string
  t_destructive :: bool



section \<open>The page-management view\<close>

text \<open>The state of the component \<^verbatim>\<open>FeedbackPages\<close> and the toasts it has shown.\<close>

record form_data =
  fd_title :: js_string
  fd_description :: js_string
  fd_slug :: js_string

record pages_view =
  pages :: "feedback_page list"
  loading :: bool
  showCreateForm :: bool
  formData :: form_data
  toasts :: "toast list"

definition empty_form :: form_data where
  "empty_form = \<lparr>fd_title = [], fd_description = [], fd_slug = []\<rparr>"

definition initial_pages_view :: pages_view where
  "initial_pages_view =
     \<lparr>pages = [], loading = True, showCreateForm = False, formData = empty_form, toasts = []\<rparr>"

definition title_required :: toast where
  "title_required =
     \<lparr>t_title = ''Error'', t_description = ''Title is required'', t_destructive = True\<rparr>"

definition create_failed :: toast where
  "create_failed =
     \<lparr>t_title = ''Error'', t_description = ''Failed to create feedback page'',
      t_destructive = True\<rparr>"

definition create_succeeded :: toast where
  "create_succeeded =
     \<lparr>t_title = ''Success'', t_description = ''Feedback page created successfully'',
      t_destructive = False\<rparr>"

definition show_toast :: "toast \<Rightarrow> pages_view \<Rightarrow> pages_view" where
  "show_toast t v = v\<lparr>toasts := toasts v @ [t]\<rparr>"

text \<open>\<^verbatim>\<open>fetchPages\<close>: all rows the caller may see, newest first.\<close>

definition fetchPages :: "uuid option \<Rightarrow> backend \<Rightarrow> pages_view \<Rightarrow> backend \<times> pages_view" where
  "fetchPages user b v =
     (sent SelectPages b,
      v\<lparr>pages := order_desc created_at (select_feedback_pages user (db b)), loading := False\<rparr>)"

definition handleTitleChange :: "js_string \<Rightarrow> pages_view \<Rightarrow> pages_view" where
  "handleTitleChange t v = v\<lparr>formData := (formData v)\<lparr>fd_title := t, fd_slug := generateSlug t\<rparr>\<rparr>"

text \<open>The slug field stays editable: \<^verbatim>\<open>setFormData({ ...formData, slug: e.target.value })\<close>.\<close>

definition handleSlugChange :: "js_string \<Rightarrow> pages_view \<Rightarrow> pages_view" where
  "handleSlugChange s v = v\<lparr>formData := (formData v)\<lparr>fd_slug := s\<rparr>\<rparr>"

text \<open>
  \<^verbatim>\<open>createPage\<close>. \<open>user\<close> is the session of \<^verbatim>\<open>useAuth\<close>, which is also the caller the
  store sees; \<^verbatim>\<open>user?.id\<close> is absent without a session. An empty string is falsy, so
  \<^verbatim>\<open>!formData.title.trim()\<close> holds exactly for a title that trims to the empty string.
\<close>

definition createPage ::
  "uuid option \<Rightarrow> uuid \<Rightarrow> timestamp \<Rightarrow> backend \<Rightarrow> pages_view \<Rightarrow> backend \<times> pages_view" where
  "createPage user new_id now b v =
     (if trim (fd_title (formData v)) = [] then (b, show_toast title_required v)
      else
        (let ins = \<lparr>ins_title = fd_title (formData v),
                    ins_description = fd_description (formData v),
                    ins_slug = fd_slug (formData v),
                    ins_user_id = user\<rparr>;
             b1 = sent (InsertPage ins) b
         in case insert_feedback_page user new_id now ins (db b1) of
              Inl err \<Rightarrow> (b1, show_toast create_failed v)
            | Inr st \<Rightarrow>
                fetchPages user (b1\<lparr>db := st\<rparr>)
                  ((show_toast create_succeeded v)\<lparr>formData := empty_form,
                                                   showCreateForm := False\<rparr>)))"


section \<open>The public submission view\<close>

record public_view =
  pub_page :: "feedback_page option"
  pub_loading :: bool
  pub_submitting :: bool
  pub_message :: js_string
  pub_submitted :: bool
  pub_toasts :: "toast list"

definition initial_public_view :: public_view where
  "initial_public_view =
     \<lparr>pub_page = None, pub_loading = True, pub_submitting = False, pub_message = [],
      pub_submitted = False, pub_toasts = []\<rparr>"

definition feedback_required :: toast where
  "feedback_required =
     \<lparr>t_title = ''Error'', t_description = ''Please enter your feedback'',
      t_destructive = True\<rparr>"

definition submit_failed :: toast where
  "submit_failed =
     \<lparr>t_title = ''Error'', t_description = ''Failed to submit feedback. Please try again.'',
      t_destructive = True\<rparr>"

definition submit_succeeded :: toast where
  "submit_succeeded =
     \<lparr>t_title = ''Success'', t_description = ''Thank you for your feedback!'',
      t_destructive = False\<rparr>"

text \<open>
  The query of \<^verbatim>\<open>fetchPage\<close>:
  \<^verbatim>\<open>.from('feedback_pages').select('*').eq('slug', slug).eq('is_active', true).single()\<close>.
\<close>

definition active_page_by_slug :: "uuid option \<Rightarrow> js_string \<Rightarrow> store \<Rightarrow> store_error + feedback_page" where
  "active_page_by_slug caller s st =
     single (filter (\<lambda>r. slug r = s \<and> is_active r) (select_feedback_pages caller st))"

text \<open>
  \<^verbatim>\<open>fetchPage\<close>. The route parameter may be undefined; \<^verbatim>\<open>!slug\<close> also holds for the empty
  string. An error of the query is logged to the console and leaves \<^verbatim>\<open>page\<close> as it was.
\<close>

definition fetchPage ::
  "uuid option \<Rightarrow> js_string option \<Rightarrow> backend \<Rightarrow> public_view \<Rightarrow> backend \<times> public_view" where
  "fetchPage caller slug_param b v =
     (case slug_param of
        None \<Rightarrow> (b, v\<lparr>pub_loading := False\<rparr>)
      | Some s \<Rightarrow>
          if s = [] then (b, v\<lparr>pub_loading := False\<rparr>)
          else
            (let b1 = sent (SelectPageBySlug s) b
             in case active_page_by_slug caller s (db b1) of
                  Inl err \<Rightarrow> (b1, v\<lparr>pub_loading := False\<rparr>)
                | Inr p \<Rightarrow> (b1, v\<lparr>pub_page := Some p, pub_loading := False\<rparr>)))"

text \<open>\<^verbatim>\<open>submitFeedback\<close>; \<^verbatim>\<open>page?.id\<close> is absent while no page is loaded.\<close>

definition submitFeedback ::
  "uuid option \<Rightarrow> uuid \<Rightarrow> timestamp \<Rightarrow> backend \<Rightarrow> public_view \<Rightarrow> backend \<times> public_view" where
  "submitFeedback caller new_id now b v =
     (if trim (pub_message v) = [] then (b, v\<lparr>pub_toasts := pub_toasts v @ [feedback_required]\<rparr>)
      else
        (let ins = \<lparr>fi_message = trim (pub_message v),
                    fi_feedback_page_id = map_option page_id (pub_page v)\<rparr>;
             b1 = sent (InsertFeedback ins) b
         in case insert_feedback caller new_id now ins (db b1) of
              Inl err \<Rightarrow>
                (b1, v\<lparr>pub_toasts := pub_toasts v @ [submit_failed], pub_submitting := False\<rparr>)
            | Inr st \<Rightarrow>
                (b1\<lparr>db := st\<rparr>,
                 v\<lparr>pub_submitted := True, pub_toasts := pub_toasts v @ [submit_succeeded],
                   pub_submitting := False\<rparr>)))"

text \<open>What the component returns: the four branches of its render, in order.\<close>

datatype public_screen =
    PublicLoading
  | PublicNotFound
  | PublicThankYou
  | PublicForm feedback_page

definition render_public :: "public_view \<Rightarrow> public_screen" where
  "render_public v =
     (if pub_loading v then PublicLoading
      else case pub_page v of
             None \<Rightarrow> PublicNotFound
           | Some p \<Rightarrow> if pub_submitted v then PublicThankYou else PublicForm p)"


section \<open>The feedback-review view\<close>

record review_view =
  rv_page :: "feedback_page option"
  rv_feedback :: "feedback_row list"
  rv_loading :: bool
  rv_toasts :: "toast list"
  rv_navigated :: "string list"

definition initial_review_view :: review_view where
  "initial_review_view =
     \<lparr>rv_page = None, rv_feedback = [], rv_loading = True, rv_toasts = [], rv_navigated = []\<rparr>"

definition load_failed :: toast where
  "load_failed =
     \<lparr>t_title = ''Error'', t_description = ''Failed to load feedback page'',
      t_destructive = True\<rparr>"

text \<open>
  The first query of \<^verbatim>\<open>fetchPageAndFeedback\<close>:
  \<^verbatim>\<open>.from('feedback_pages').select('*').eq('id', pageId).eq('user_id', user?.id).single()\<close>.
\<close>

definition own_page_by_id :: "uuid \<Rightarrow> uuid \<Rightarrow> store \<Rightarrow> store_error + feedback_page" where
  "own_page_by_id uid pid st =
     single (filter (\<lambda>r. page_id r = pid \<and> user_id r = uid) (select_feedback_pages (Some uid) st))"

text \<open>
  The second query:
  \<^verbatim>\<open>.from('feedback').select('*').eq('feedback_page_id', pageId)
       .order('created_at', { ascending: false })\<close>.
\<close>

definition feedback_of_page :: "uuid option \<Rightarrow> uuid \<Rightarrow> store \<Rightarrow> feedback_row list" where
  "feedback_of_page caller pid st =
     order_desc fb_created_at
       (filter (\<lambda>f. feedback_page_id f = Some pid) (select_feedback caller st))"

text \<open>
  \<^verbatim>\<open>fetchPageAndFeedback\<close>. The effect that calls it runs only with a session and a
  route parameter (\<^verbatim>\<open>if (user && pageId)\<close>), so both are given. The \<^verbatim>\<open>catch\<close> block
  shows the toast and navigates to \<^verbatim>\<open>/pages\<close>.
\<close>

definition fetchPageAndFeedback ::
  "uuid \<Rightarrow> uuid \<Rightarrow> backend \<Rightarrow> review_view \<Rightarrow> backend \<times> review_view" where
  "fetchPageAndFeedback uid pid b v =
     (let b1 = sent (SelectOwnPage pid uid) b
      in case own_page_by_id uid pid (db b1) of
           Inl err \<Rightarrow>
             (b1, v\<lparr>rv_toasts := rv_toasts v @ [load_failed],
                    rv_navigated := rv_navigated v @ [''/pages''],
                    rv_loading := False\<rparr>)
         | Inr p \<Rightarrow>
             (let b2 = sent (SelectFeedback pid) b1
              in (b2, v\<lparr>rv_page := Some p,
                         rv_feedback := feedback_of_page (Some uid) pid (db b2),
                         rv_loading := False\<rparr>)))"

text \<open>
  The list of the render: \<^verbatim>\<open>feedback.map((item, index) => ...)\<close> with the label
  \<^verbatim>\<open>Anonymous Feedback #{feedback.length - index}\<close>.
\<close>

definition labelled :: "feedback_row list \<Rightarrow> (int \<times> feedback_row) list" where
  "labelled fb = map (\<lambda>(index, item). (int (length fb) - int index, item)) (enumerate 0 fb)"

datatype review_screen =
    ReviewLoading
  | ReviewNotFound
  | ReviewPage feedback_page "(int \<times> feedback_row) list"

definition render_review :: "bool \<Rightarrow> review_view \<Rightarrow> review_screen" where
  "render_review authLoading v =
     (if authLoading \<or> rv_loading v then ReviewLoading
      else case rv_page v of
             None \<Rightarrow> ReviewNotFound
           | Some p \<Rightarrow> ReviewPage p (labelled (rv_feedback v)))"




section \<open>Example data\<close>

text \<open>
  A store with one page, owned by user 2, and three submissions to it, stored out of
  order; and the same page after its owner has switched it off.
\<close>

definition team_b_page :: feedback_page where
  "team_b_page =
     \<lparr>page_id = 10, user_id = 2, title = js ''Team B'', description = None,
      slug = js ''team-b'', is_active = True, created_at = 5\<rparr>"

definition entry :: "uuid \<Rightarrow> string \<Rightarrow> timestamp \<Rightarrow> feedback_row" where
  "entry i m t = \<lparr>fb_id = i, message = js m, feedback_page_id = Some 10, fb_created_at = t\<rparr>"

definition team_b_backend :: backend where
  "team_b_backend =
     \<lparr>db = \<lparr>feedback_pages = [team_b_page],
            feedback = [entry 1 ''first'' 20, entry 2 ''third'' 40, entry 3 ''second'' 30]\<rparr>,
      requests = []\<rparr>"

definition closed_backend :: backend where
  "closed_backend =
     \<lparr>db = \<lparr>feedback_pages = [team_b_page\<lparr>is_active := False\<rparr>], feedback = []\<rparr>,
      requests = []\<rparr>"

section \<open>Slug derivation\<close>

lemmas slug_eval = generateSlug_def trim_def strip_others_def toLowerCase_def lower_unit_def
  kept_def is_space_def is_lower_def is_upper_def is_digit_def is_hyphen_def hyphen_def js_def

lemma slug_unit_not_space: "slug_unit c \<Longrightarrow> \<not> is_space c"
  by (auto simp: slug_unit_def is_space_def is_lower_def is_digit_def hyphen_def)

lemma slug_unit_kept: "slug_unit c \<Longrightarrow> kept c"
  by (auto simp: slug_unit_def kept_def)

lemma slug_unit_lower: "slug_unit c \<Longrightarrow> lower_unit c = [c]"
  by (auto simp: slug_unit_def lower_unit_def is_upper_def is_lower_def is_digit_def hyphen_def)

lemma slug_unit_hyphen: "slug_unit hyphen"
  by (simp add: slug_unit_def)

lemma replace_runs_all:
  "list_all q s \<Longrightarrow> q hyphen \<Longrightarrow> list_all q (replace_runs p s)"
proof (induction p s rule: replace_runs.induct)
  case (1 p)
  then show ?case by simp
next
  case (2 p c cs)
  have "list_all q (dropWhile p cs)"
    using "2.prems"(1) by (auto simp: list_all_iff dest: set_dropWhileD)
  with 2 show ?case by simp
qed

lemma replace_runs_none: "list_all (\<lambda>c. \<not> p c) s \<Longrightarrow> replace_runs p s = s"
  by (induction s) simp_all

lemma replace_space_slug:
  "list_all kept s \<Longrightarrow> list_all slug_unit (replace_runs is_space s)"
proof (induction is_space s rule: replace_runs.induct)
  case 1
  then show ?case by simp
next
  case (2 c cs)
  have "list_all kept (dropWhile is_space cs)"
    using "2.prems" by (auto simp: list_all_iff dest: set_dropWhileD)
  with 2 show ?case
    by (auto simp: slug_unit_hyphen) (auto simp: kept_def slug_unit_def)
qed

text \<open>After a run has been replaced, what follows does not start with another one.\<close>

lemma dropWhile_replace_runs:
  "dropWhile p (replace_runs p (dropWhile p cs)) = replace_runs p (dropWhile p cs)"
proof (cases "dropWhile p cs")
  case Nil
  show ?thesis unfolding Nil by simp
next
  case (Cons d ds)
  then have "\<not> p d"
    using hd_dropWhile [of p cs] by simp
  then show ?thesis unfolding Cons by simp
qed

lemma replace_runs_idem:
  "p hyphen \<Longrightarrow> replace_runs p (replace_runs p s) = replace_runs p s"
proof (induction p s rule: replace_runs.induct)
  case (1 p)
  then show ?case by simp
next
  case (2 p c cs)
  then show ?case by (simp add: dropWhile_replace_runs)
qed

lemma trim_slug: "list_all slug_unit s \<Longrightarrow> trim s = s"
proof -
  assume "list_all slug_unit s"
  then have n: "\<And>c. c \<in> set s \<Longrightarrow> \<not> is_space c"
    by (simp add: list_all_iff slug_unit_not_space)
  then have "dropWhile is_space s = s" by simp
  moreover have "dropWhile is_space (rev s) = rev s"
    by (rule dropWhile_id) (simp add: n)
  ultimately show ?thesis by (simp add: trim_def)
qed

lemma toLowerCase_slug: "list_all slug_unit s \<Longrightarrow> toLowerCase s = s"
  by (induction s) (simp_all add: toLowerCase_def slug_unit_lower)

lemma strip_others_slug: "list_all slug_unit s \<Longrightarrow> strip_others s = s"
  by (simp add: strip_others_def list_all_iff slug_unit_kept)

lemma strip_others_kept: "list_all kept (strip_others s)"
  by (simp add: strip_others_def list_all_iff)

lemma hyphenated_slug: "list_all slug_unit (hyphenated t)"
  unfolding hyphenated_def by (rule replace_space_slug) (rule strip_others_kept)

lemma collapsed_slug: "list_all slug_unit (replace_runs is_hyphen (hyphenated t))"
  by (rule replace_runs_all) (simp_all add: hyphenated_slug slug_unit_hyphen)

text \<open>
  The final \<^verbatim>\<open>.trim()\<close> never removes anything: when it runs, every white-space unit
  has already been turned into a hyphen.
\<close>

lemma generateSlug_trim_dead:
  "generateSlug t = replace_runs is_hyphen (hyphenated t)"
  unfolding generateSlug_def hyphenated_def [symmetric]
  by (rule trim_slug) (rule collapsed_slug)

lemma generateSlug_units: "list_all slug_unit (generateSlug t)"
  by (simp add: generateSlug_trim_dead collapsed_slug)

text \<open>Deriving a slug from a slug gives the same slug.\<close>

lemma generateSlug_idempotent: "generateSlug (generateSlug s) = generateSlug s"
proof -
  let ?r = "generateSlug s"
  have u: "list_all slug_unit ?r" by (rule generateSlug_units)
  have "hyphenated ?r = ?r"
    unfolding hyphenated_def using u
    by (simp add: toLowerCase_slug strip_others_slug replace_runs_none list_all_iff
        slug_unit_not_space)
  then have "generateSlug ?r = replace_runs is_hyphen ?r"
    by (simp add: generateSlug_trim_dead)
  also have "\<dots> = ?r"
    by (simp add: generateSlug_trim_dead [of s] replace_runs_idem is_hyphen_def)
  finally show ?thesis .
qed

lemma generateSlug_my_cool_page: "generateSlug (js ''My Cool Page!'') = js ''my-cool-page''"
  by (simp add: slug_eval)

lemma generateSlug_bangs: "generateSlug (js ''!!!'') = []"
  by (simp add: slug_eval)

text \<open>
  Claim C1. The slug derivation is said to be idempotent, to lower-case, strip, hyphenate,
  collapse and trim, and to send \<^verbatim>\<open>"  multiple   spaces -- here "\<close> to
  \<^verbatim>\<open>"multiple-spaces-here"\<close>. Idempotence and the first example hold
  (\<open>generateSlug_idempotent\<close>, \<open>generateSlug_my_cool_page\<close>). On the second example the
  function returns \<^verbatim>\<open>"-multiple-spaces-here-"\<close>: the white space at both ends has become
  hyphens before \<^verbatim>\<open>.trim()\<close> runs, and \<^verbatim>\<open>.trim()\<close> removes white space only.
\<close>

theorem generateSlug_keeps_outer_hyphens:
  "generateSlug (js ''  multiple   spaces -- here '') = js ''-multiple-spaces-here-''
   \<and> generateSlug (js ''  multiple   spaces -- here '') \<noteq> js ''multiple-spaces-here''"
  by (simp add: slug_eval)

text \<open>
  Claim C8. For every title, each code unit of \<open>generateSlug t\<close> is a lower-case ASCII
  letter, a digit or a hyphen; none is white space or an upper-case letter.
\<close>

theorem generateSlug_alphabet:
  "\<forall>c \<in> set (generateSlug t).
     ((97 \<le> c \<and> c \<le> 122) \<or> (48 \<le> c \<and> c \<le> 57) \<or> c = 45)
     \<and> \<not> is_space c \<and> \<not> is_upper c"
proof
  fix c
  assume "c \<in> set (generateSlug t)"
  then have u: "slug_unit c"
    using generateSlug_units [of t] by (simp add: list_all_iff)
  then have "(97 \<le> c \<and> c \<le> 122) \<or> (48 \<le> c \<and> c \<le> 57) \<or> c = 45"
    by (simp add: slug_unit_def is_lower_def is_digit_def hyphen_def)
  moreover from u have "\<not> is_upper c"
    by (auto simp: slug_unit_def is_lower_def is_digit_def hyphen_def is_upper_def)
  ultimately show "((97 \<le> c \<and> c \<le> 122) \<or> (48 \<le> c \<and> c \<le> 57) \<or> c = 45)
     \<and> \<not> is_space c \<and> \<not> is_upper c"
    using u by (simp add: slug_unit_not_space)
qed

theorem generateSlug_alphabet_witness:
  "(109::nat) \<in> set (generateSlug (js ''My Cool Page!''))
   \<and> (45::nat) \<in> set (generateSlug (js ''My Cool Page!''))
   \<and> \<not> is_space 109 \<and> \<not> is_upper 109 \<and> \<not> is_space 45 \<and> \<not> is_upper 45"
proof -
  have m: "(109::nat) \<in> set (generateSlug (js ''My Cool Page!''))"
    and h: "(45::nat) \<in> set (generateSlug (js ''My Cool Page!''))"
    by (simp_all add: slug_eval)
  from generateSlug_alphabet [of "js ''My Cool Page!''"] m h
  have "\<not> is_space 109 \<and> \<not> is_upper 109 \<and> \<not> is_space 45 \<and> \<not> is_upper 45"
    by blast
  with m h show ?thesis by blast
qed


section \<open>Row-level security\<close>

lemma permitted_pages_select:
  "permitted feedback_pages_policies Select caller r \<longleftrightarrow> owns caller r \<or> is_active r"
  by (simp add: permitted_def feedback_pages_policies_def)

lemma permitted_pages_write:
  "cmd \<noteq> Select \<Longrightarrow> permitted feedback_pages_policies cmd caller r \<longleftrightarrow> owns caller r"
  by (cases cmd) (simp_all add: permitted_def feedback_pages_policies_def)

lemma insert_feedback_page_cases:
  "insert_feedback_page caller new_id now ins st = Inr st' \<longleftrightarrow>
     (\<exists>u. caller = Some u \<and> ins_user_id ins = Some u
        \<and> new_id \<notin> page_id ` set (feedback_pages st)
        \<and> ins_slug ins \<notin> slug ` set (feedback_pages st)
        \<and> st' = st\<lparr>feedback_pages := feedback_pages st @
             [\<lparr>page_id = new_id, user_id = u, title = ins_title ins,
               description = Some (ins_description ins), slug = ins_slug ins,
               is_active = True, created_at = now\<rparr>]\<rparr>)"
  by (auto simp: insert_feedback_page_def permitted_pages_write owns_def Let_def
      split: option.splits)

text \<open>
  Claim C2, as stated: an authenticated caller can never read or mutate a page owned by
  another caller. Reading fails: the policy "Anyone can view active feedback pages" lets
  caller 1 select an active page of owner 2.
\<close>

theorem active_page_of_other_owner_is_readable:
  "user_id \<lparr>page_id = 10, user_id = 2, title = js ''Team B'', description = None,
            slug = js ''team-b'', is_active = True, created_at = 5\<rparr> \<noteq> 1
   \<and> permitted feedback_pages_policies Select (Some 1)
        \<lparr>page_id = 10, user_id = 2, title = js ''Team B'', description = None,
         slug = js ''team-b'', is_active = True, created_at = 5\<rparr>"
  by (simp add: permitted_pages_select)

text \<open>
  Claim C2, amended: for a caller \<open>a\<close> and a row owned by someone else, the policies
  refuse insert (as that owner), update and delete, and allow select exactly when the
  row is active; an insert sent by \<open>a\<close> with the other owner's \<^verbatim>\<open>user_id\<close> is rejected
  by the store.
\<close>

theorem other_owner_cannot_mutate:
  assumes "user_id r \<noteq> a"
  shows "\<not> permitted feedback_pages_policies Insert (Some a) r
       \<and> \<not> permitted feedback_pages_policies Update (Some a) r
       \<and> \<not> permitted feedback_pages_policies Delete (Some a) r
       \<and> (permitted feedback_pages_policies Select (Some a) r \<longleftrightarrow> is_active r)
       \<and> (ins_user_id ins = Some (user_id r) \<longrightarrow>
            insert_feedback_page (Some a) new_id now ins st = Inl RlsViolation)"
proof -
  have "insert_feedback_page (Some a) new_id now ins st = Inl RlsViolation"
    if "ins_user_id ins = Some (user_id r)"
    using that assms
    by (simp add: insert_feedback_page_def permitted_pages_write owns_def)
  with assms show ?thesis
    by (auto simp: permitted_pages_select permitted_pages_write owns_def)
qed

theorem other_owner_cannot_mutate_witness:
  "user_id (team_b_page\<lparr>is_active := False\<rparr>) \<noteq> 1
   \<and> \<not> permitted feedback_pages_policies Insert (Some 1) (team_b_page\<lparr>is_active := False\<rparr>)
   \<and> \<not> permitted feedback_pages_policies Update (Some 1) (team_b_page\<lparr>is_active := False\<rparr>)
   \<and> \<not> permitted feedback_pages_policies Delete (Some 1) (team_b_page\<lparr>is_active := False\<rparr>)
   \<and> \<not> permitted feedback_pages_policies Select (Some 1) (team_b_page\<lparr>is_active := False\<rparr>)"
proof -
  have h: "user_id (team_b_page\<lparr>is_active := False\<rparr>) \<noteq> 1"
    by (simp add: team_b_page_def)
  from other_owner_cannot_mutate [OF h] h show ?thesis
    by simp
qed


section \<open>Creating a page\<close>

text \<open>
  Claim C10. The title \<^verbatim>\<open>"!!!"\<close> is not empty and has no letter or digit; its slug is the
  empty string. After \<^verbatim>\<open>handleTitleChange("!!!")\<close> the form passes the title check of
  \<^verbatim>\<open>createPage\<close>, whose next request is the insert with the empty slug, whatever the
  session and the store are; on an empty store that insert is accepted.
\<close>

theorem empty_slug_reaches_store:
  "js ''!!!'' \<noteq> []
   \<and> list_all (\<lambda>c. \<not> is_lower c \<and> \<not> is_upper c \<and> \<not> is_digit c) (js ''!!!'')
   \<and> generateSlug (js ''!!!'') = []
   \<and> fd_slug (formData (handleTitleChange (js ''!!!'') v)) = []
   \<and> trim (fd_title (formData (handleTitleChange (js ''!!!'') v))) \<noteq> []
   \<and> take (Suc (length (requests b)))
        (requests (fst (createPage user new_id now b (handleTitleChange (js ''!!!'') v))))
      = requests b @ [InsertPage \<lparr>ins_title = js ''!!!'',
                                  ins_description = fd_description (formData v),
                                  ins_slug = [], ins_user_id = user\<rparr>]
   \<and> map slug (feedback_pages (db (fst (createPage (Some 1) 7 100
          \<lparr>db = \<lparr>feedback_pages = [], feedback = []\<rparr>, requests = []\<rparr>
          (handleTitleChange (js ''!!!'') initial_pages_view))))) = [[]]"
proof -
  have t: "trim (js ''!!!'') = js ''!!!''" "js ''!!!'' \<noteq> []"
    by (simp_all add: trim_def js_def is_space_def)
  have c: "list_all (\<lambda>c. \<not> is_lower c \<and> \<not> is_upper c \<and> \<not> is_digit c) (js ''!!!'')"
    by (simp add: js_def is_lower_def is_upper_def is_digit_def)
  have r: "take (Suc (length (requests b)))
        (requests (fst (createPage user new_id now b (handleTitleChange (js ''!!!'') v))))
      = requests b @ [InsertPage \<lparr>ins_title = js ''!!!'',
                                  ins_description = fd_description (formData v),
                                  ins_slug = [], ins_user_id = user\<rparr>]"
    by (simp add: createPage_def handleTitleChange_def generateSlug_bangs t Let_def sent_def
        fetchPages_def split: sum.split)
  have s: "map slug (feedback_pages (db (fst (createPage (Some 1) 7 100
          \<lparr>db = \<lparr>feedback_pages = [], feedback = []\<rparr>, requests = []\<rparr>
          (handleTitleChange (js ''!!!'') initial_pages_view))))) = [[]]"
    by (simp add: createPage_def handleTitleChange_def generateSlug_bangs t Let_def sent_def
        fetchPages_def insert_feedback_page_def permitted_def feedback_pages_policies_def
        owns_def initial_pages_view_def empty_form_def)
  show ?thesis
    using t c r s by (simp add: handleTitleChange_def generateSlug_bangs)
qed

text \<open>
  Claim C7. With a title that trims to the empty string \<^verbatim>\<open>createPage\<close> only shows the
  toast "Title is required"; with a message that trims to the empty string
  \<^verbatim>\<open>submitFeedback\<close> only shows "Please enter your feedback". In both cases no request
  is sent, the store is unchanged and the form keeps what was typed.
\<close>

theorem validation_sends_nothing:
  "(trim (fd_title (formData v)) = [] \<longrightarrow>
      createPage user new_id now b v = (b, show_toast title_required v)
      \<and> requests (fst (createPage user new_id now b v)) = requests b
      \<and> db (fst (createPage user new_id now b v)) = db b
      \<and> formData (snd (createPage user new_id now b v)) = formData v
      \<and> toasts (snd (createPage user new_id now b v)) = toasts v @ [title_required])
   \<and> (trim (pub_message w) = [] \<longrightarrow>
      submitFeedback caller new_id now b w
        = (b, w\<lparr>pub_toasts := pub_toasts w @ [feedback_required]\<rparr>)
      \<and> requests (fst (submitFeedback caller new_id now b w)) = requests b
      \<and> db (fst (submitFeedback caller new_id now b w)) = db b
      \<and> pub_message (snd (submitFeedback caller new_id now b w)) = pub_message w
      \<and> pub_toasts (snd (submitFeedback caller new_id now b w))
          = pub_toasts w @ [feedback_required])"
  by (simp add: createPage_def submitFeedback_def show_toast_def)

theorem validation_sends_nothing_witness:
  "fd_title (formData (handleTitleChange (js ''   '') initial_pages_view)) \<noteq> []
   \<and> trim (fd_title (formData (handleTitleChange (js ''   '') initial_pages_view))) = []
   \<and> fst (createPage (Some 2) 11 50 team_b_backend
             (handleTitleChange (js ''   '') initial_pages_view)) = team_b_backend
   \<and> toasts (snd (createPage (Some 2) 11 50 team_b_backend
             (handleTitleChange (js ''   '') initial_pages_view))) = [title_required]
   \<and> trim (pub_message (initial_public_view\<lparr>pub_page := Some team_b_page,
                                             pub_message := js ''  ''\<rparr>)) = []
   \<and> fst (submitFeedback None 4 50 team_b_backend
             (initial_public_view\<lparr>pub_page := Some team_b_page, pub_message := js ''  ''\<rparr>))
       = team_b_backend"
proof -
  let ?v = "handleTitleChange (js ''   '') initial_pages_view"
  let ?w = "initial_public_view\<lparr>pub_page := Some team_b_page, pub_message := js ''  ''\<rparr>"
  have n: "fd_title (formData ?v) \<noteq> []"
    and t: "trim (fd_title (formData ?v)) = []"
    and m: "trim (pub_message ?w) = []"
    and i: "toasts ?v = []"
    by (simp_all add: handleTitleChange_def trim_def js_def is_space_def initial_pages_view_def)
  from validation_sends_nothing
         [where v = ?v and w = ?w and b = team_b_backend and user = "Some 2" and caller = None
            and new_id = 11 and now = 50] t m
  have "createPage (Some 2) 11 50 team_b_backend ?v
          = (team_b_backend, show_toast title_required ?v)"
    by blast
  moreover from validation_sends_nothing
         [where v = ?v and w = ?w and b = team_b_backend and user = "Some 2" and caller = None
            and new_id = 4 and now = 50] t m
  have "submitFeedback None 4 50 team_b_backend ?w
          = (team_b_backend, ?w\<lparr>pub_toasts := pub_toasts ?w @ [feedback_required]\<rparr>)"
    by blast
  ultimately show ?thesis
    using n t m i by (simp add: show_toast_def)
qed

text \<open>
  Claim C9. Whenever \<^verbatim>\<open>createPage\<close> shows its success toast, the table has gained
  exactly one row, and the title of that row is the title of the form as typed, not its
  trimmed form.
\<close>

theorem createPage_stores_raw_title:
  assumes "toasts (snd (createPage user new_id now b v)) = toasts v @ [create_succeeded]"
  shows "\<exists>u. user = Some u \<and>
           feedback_pages (db (fst (createPage user new_id now b v))) =
             feedback_pages (db b) @
               [\<lparr>page_id = new_id, user_id = u, title = fd_title (formData v),
                 description = Some (fd_description (formData v)), slug = fd_slug (formData v),
                 is_active = True, created_at = now\<rparr>]"
proof (cases "trim (fd_title (formData v)) = []")
  case True
  with assms show ?thesis
    by (simp add: createPage_def show_toast_def title_required_def create_succeeded_def)
next
  case False
  let ?ins = "\<lparr>ins_title = fd_title (formData v), ins_description = fd_description (formData v),
               ins_slug = fd_slug (formData v), ins_user_id = user\<rparr>"
  show ?thesis
  proof (cases "insert_feedback_page user new_id now ?ins (db b)")
    case (Inl err)
    with False assms show ?thesis
      by (simp add: createPage_def Let_def sent_def show_toast_def create_failed_def
          create_succeeded_def)
  next
    case (Inr st)
    then obtain u where "user = Some u"
      and "st = (db b)\<lparr>feedback_pages := feedback_pages (db b) @
             [\<lparr>page_id = new_id, user_id = u, title = fd_title (formData v),
               description = Some (fd_description (formData v)), slug = fd_slug (formData v),
               is_active = True, created_at = now\<rparr>]\<rparr>"
      by (auto simp: insert_feedback_page_cases)
    with False Inr show ?thesis
      by (simp add: createPage_def Let_def sent_def fetchPages_def)
  qed
qed

theorem createPage_stores_raw_title_witness:
  "toasts (snd (createPage (Some 1) 7 100
       \<lparr>db = \<lparr>feedback_pages = [], feedback = []\<rparr>, requests = []\<rparr>
       (handleTitleChange (js '' Hi '') initial_pages_view)))
     = toasts (handleTitleChange (js '' Hi '') initial_pages_view) @ [create_succeeded]
   \<and> map title (feedback_pages (db (fst (createPage (Some 1) 7 100
       \<lparr>db = \<lparr>feedback_pages = [], feedback = []\<rparr>, requests = []\<rparr>
       (handleTitleChange (js '' Hi '') initial_pages_view))))) = [js '' Hi '']
   \<and> js '' Hi '' \<noteq> trim (js '' Hi '')"
proof -
  let ?b = "\<lparr>db = \<lparr>feedback_pages = [], feedback = []\<rparr>, requests = []\<rparr>"
  let ?v = "handleTitleChange (js '' Hi '') initial_pages_view"
  have t: "trim (js '' Hi '') = js ''Hi''" and n: "js ''Hi'' \<noteq> []"
    by (simp_all add: trim_def js_def is_space_def)
  have h: "toasts (snd (createPage (Some 1) 7 100 ?b ?v)) = toasts ?v @ [create_succeeded]"
    by (simp add: createPage_def handleTitleChange_def t n Let_def sent_def
        fetchPages_def insert_feedback_page_def permitted_def feedback_pages_policies_def
        owns_def initial_pages_view_def empty_form_def show_toast_def)
  from createPage_stores_raw_title [OF h]
  have "map title (feedback_pages (db (fst (createPage (Some 1) 7 100 ?b ?v)))) = [js '' Hi '']"
    by (auto simp: handleTitleChange_def)
  with h t show ?thesis by (simp add: js_def)
qed

text \<open>
  Claim C6. Distinctness of the slugs of all rows, whoever owns them, is kept by
  \<^verbatim>\<open>createPage\<close>; and a create whose slug is already taken by any row leaves the store
  as it is and shows the toast "Failed to create feedback page".
\<close>

theorem slugs_stay_unique:
  assumes "distinct (map slug (feedback_pages (db b)))"
  shows "distinct (map slug (feedback_pages (db (fst (createPage user new_id now b v)))))
       \<and> (trim (fd_title (formData v)) \<noteq> []
            \<and> fd_slug (formData v) \<in> set (map slug (feedback_pages (db b))) \<longrightarrow>
          db (fst (createPage user new_id now b v)) = db b
          \<and> snd (createPage user new_id now b v) = show_toast create_failed v)"
proof -
  let ?ins = "\<lparr>ins_title = fd_title (formData v), ins_description = fd_description (formData v),
               ins_slug = fd_slug (formData v), ins_user_id = user\<rparr>"
  have 1: "distinct (map slug (feedback_pages (db (fst (createPage user new_id now b v)))))"
  proof (cases "insert_feedback_page user new_id now ?ins (db b)")
    case (Inl err)
    with assms show ?thesis
      by (simp add: createPage_def Let_def sent_def)
  next
    case (Inr st)
    then have "distinct (map slug (feedback_pages st))"
      using assms by (auto simp: insert_feedback_page_cases)
    with Inr assms show ?thesis
      by (simp add: createPage_def Let_def sent_def fetchPages_def)
  qed
  have 2: "db (fst (createPage user new_id now b v)) = db b
          \<and> snd (createPage user new_id now b v) = show_toast create_failed v"
    if "trim (fd_title (formData v)) \<noteq> []"
      and "fd_slug (formData v) \<in> set (map slug (feedback_pages (db b)))"
  proof (cases "insert_feedback_page user new_id now ?ins (db b)")
    case (Inl err)
    with that show ?thesis
      by (simp add: createPage_def Let_def sent_def)
  next
    case (Inr st)
    with that(2) have False
      by (auto simp: insert_feedback_page_cases)
    then show ?thesis ..
  qed
  from 1 2 show ?thesis by blast
qed

theorem slugs_stay_unique_witness:
  "distinct (map slug (feedback_pages (db team_b_backend)))
   \<and> trim (fd_title (formData (handleTitleChange (js ''Team B'') initial_pages_view))) \<noteq> []
   \<and> fd_slug (formData (handleTitleChange (js ''Team B'') initial_pages_view))
       \<in> set (map slug (feedback_pages (db team_b_backend)))
   \<and> user_id team_b_page \<noteq> 1
   \<and> db (fst (createPage (Some 1) 11 50 team_b_backend
                (handleTitleChange (js ''Team B'') initial_pages_view))) = db team_b_backend
   \<and> toasts (snd (createPage (Some 1) 11 50 team_b_backend
                (handleTitleChange (js ''Team B'') initial_pages_view))) = [create_failed]"
proof -
  let ?v = "handleTitleChange (js ''Team B'') initial_pages_view"
  have g: "generateSlug (js ''Team B'') = js ''team-b''"
    by (simp add: slug_eval)
  have d: "distinct (map slug (feedback_pages (db team_b_backend)))"
    and u: "user_id team_b_page \<noteq> 1"
    by (simp_all add: team_b_backend_def team_b_page_def)
  have t: "trim (fd_title (formData ?v)) \<noteq> []"
    by (simp add: handleTitleChange_def trim_def js_def is_space_def)
  have c: "fd_slug (formData ?v) \<in> set (map slug (feedback_pages (db team_b_backend)))"
    by (simp add: handleTitleChange_def g team_b_backend_def team_b_page_def)
  have i: "toasts ?v = []"
    by (simp add: handleTitleChange_def initial_pages_view_def)
  from slugs_stay_unique [OF d, of "Some 1" 11 50 ?v] t c
  have "db (fst (createPage (Some 1) 11 50 team_b_backend ?v)) = db team_b_backend"
    and "snd (createPage (Some 1) 11 50 team_b_backend ?v) = show_toast create_failed ?v"
    by blast+
  with d t c u i show ?thesis
    by (simp add: show_toast_def)
qed


section \<open>The feedback-review view, verified\<close>

lemma order_desc_sorted:
  "sorted_wrt (\<lambda>x y. key y \<le> key x) (order_desc key rows)"
proof -
  have "sorted (map key (sort_key key rows))" by simp
  then have "sorted_wrt (\<lambda>x y. key x \<le> key y) (sort_key key rows)"
    by (simp add: sorted_map)
  then show ?thesis
    by (simp add: order_desc_def sorted_wrt_rev)
qed

lemma set_order_desc: "set (order_desc key rows) = set rows"
  by (simp add: order_desc_def)

lemma length_labelled: "length (labelled fb) = length fb"
  by (simp add: labelled_def)

lemma labelled_nth:
  "i < length fb \<Longrightarrow> labelled fb ! i = (int (length fb) - int i, fb ! i)"
  by (simp add: labelled_def nth_enumerate_eq)

lemma labelled_ends:
  assumes "fb \<noteq> []"
  shows "fst (hd (labelled fb)) = int (length fb)" and "fst (last (labelled fb)) = 1"
proof -
  from assms obtain x xs where c: "fb = x # xs"
    by (cases fb) auto
  have ne: "labelled fb \<noteq> []"
    using length_labelled [of fb] assms by auto
  from ne have "hd (labelled fb) = labelled fb ! 0"
    by (simp add: hd_conv_nth)
  then show "fst (hd (labelled fb)) = int (length fb)"
    using assms by (simp add: labelled_nth)
  from ne have "last (labelled fb) = labelled fb ! length xs"
    by (simp add: last_conv_nth length_labelled c)
  also have "\<dots> = (int (length fb) - int (length xs), fb ! length xs)"
    by (rule labelled_nth) (simp add: c)
  finally show "fst (last (labelled fb)) = 1"
    by (simp add: c)
qed

lemma sorted_desc_hd:
  fixes key :: "'r \<Rightarrow> timestamp"
  shows "sorted_wrt (\<lambda>x y. key y \<le> key x) xs \<Longrightarrow> x \<in> set xs \<Longrightarrow> key x \<le> key (hd xs)"
  by (cases xs) auto

lemma sorted_desc_last:
  fixes key :: "'r \<Rightarrow> timestamp"
  shows "sorted_wrt (\<lambda>x y. key y \<le> key x) xs \<Longrightarrow> x \<in> set xs \<Longrightarrow> key (last xs) \<le> key x"
  by (induction xs) auto

lemma sorted_desc_strict:
  fixes key :: "'r \<Rightarrow> timestamp"
  assumes "sorted_wrt (\<lambda>x y. key y \<le> key x) xs" and "distinct (map key xs)"
  shows "sorted_wrt (\<lambda>x y. key y < key x) xs"
  using assms
proof (induction xs)
  case Nil
  then show ?case by simp
next
  case (Cons a xs)
  then have le: "\<forall>x \<in> set xs. key x \<le> key a" and ne: "key a \<notin> key ` set xs"
    by simp_all
  have "\<forall>x \<in> set xs. key x < key a"
  proof
    fix x
    assume x: "x \<in> set xs"
    then have "key x \<in> key ` set xs" by (rule imageI)
    with ne have "key x \<noteq> key a" by metis
    moreover from x le have "key x \<le> key a" by blast
    ultimately show "key x < key a" by simp
  qed
  with Cons show ?case by simp
qed

lemma single_Nil: "single [] = Inl NotSingleRow"
  by (simp add: single_def)

lemma single_Inr: "single rows = Inr r \<Longrightarrow> rows = [r]"
  by (auto simp: single_def split: list.splits)





text \<open>
  Claim C3. When the page query succeeds, the view renders the caller's visible feedback
  of that page in the order of the query, which is by creation time, newest first
  (strictly so when no two times are equal), and the item at zero-based index \<open>i\<close> of
  \<open>N\<close> items carries the label \<open>N - i\<close>: the first, the most recent, is labelled \<open>N\<close> and the
  last, the earliest, is labelled 1.
\<close>

theorem review_newest_first_labelled:
  assumes "own_page_by_id uid pid (db b) = Inr p"
  shows "\<exists>fb. render_review False (snd (fetchPageAndFeedback uid pid b v)) = ReviewPage p (labelled fb)
          \<and> fb = feedback_of_page (Some uid) pid (db b)
          \<and> set fb = {f \<in> set (select_feedback (Some uid) (db b)). feedback_page_id f = Some pid}
          \<and> sorted_wrt (\<lambda>x y. fb_created_at y \<le> fb_created_at x) fb
          \<and> (distinct (map fb_created_at fb) \<longrightarrow>
               sorted_wrt (\<lambda>x y. fb_created_at y < fb_created_at x) fb)
          \<and> length (labelled fb) = length fb
          \<and> (\<forall>i < length fb. labelled fb ! i = (int (length fb) - int i, fb ! i))
          \<and> (fb \<noteq> [] \<longrightarrow>
               fst (hd (labelled fb)) = int (length fb) \<and> fst (last (labelled fb)) = 1
               \<and> (\<forall>f \<in> set fb. fb_created_at f \<le> fb_created_at (hd fb)
                                \<and> fb_created_at (last fb) \<le> fb_created_at f))"
proof -
  let ?fb = "feedback_of_page (Some uid) pid (db b)"
  have r: "render_review False (snd (fetchPageAndFeedback uid pid b v)) = ReviewPage p (labelled ?fb)"
    using assms by (simp add: fetchPageAndFeedback_def Let_def sent_def render_review_def)
  have s: "sorted_wrt (\<lambda>x y. fb_created_at y \<le> fb_created_at x) ?fb"
    unfolding feedback_of_page_def by (rule order_desc_sorted)
  have m: "set ?fb = {f \<in> set (select_feedback (Some uid) (db b)). feedback_page_id f = Some pid}"
    by (auto simp: feedback_of_page_def set_order_desc)
  have e: "\<forall>f \<in> set ?fb. fb_created_at f \<le> fb_created_at (hd ?fb)
                                \<and> fb_created_at (last ?fb) \<le> fb_created_at f"
    using sorted_desc_hd [OF s] sorted_desc_last [OF s] by blast
  have n: "\<forall>i < length ?fb. labelled ?fb ! i = (int (length ?fb) - int i, ?fb ! i)"
    by (simp add: labelled_nth)
  from r s m e n show ?thesis
    by (intro exI [of _ ?fb]) (simp add: length_labelled labelled_ends sorted_desc_strict)
qed

theorem review_newest_first_labelled_witness:
  "own_page_by_id 2 10 (db team_b_backend) = Inr team_b_page
   \<and> render_review False (snd (fetchPageAndFeedback 2 10 team_b_backend initial_review_view))
       = ReviewPage team_b_page
           [(3, entry 2 ''third'' 40), (2, entry 3 ''second'' 30), (1, entry 1 ''first'' 20)]"
proof -
  have h: "own_page_by_id 2 10 (db team_b_backend) = Inr team_b_page"
    by (simp add: own_page_by_id_def team_b_backend_def team_b_page_def single_def
        select_feedback_pages_def permitted_pages_select owns_def)
  have f: "feedback_of_page (Some 2) 10 (db team_b_backend)
             = [entry 2 ''third'' 40, entry 3 ''second'' 30, entry 1 ''first'' 20]"
    by (simp add: feedback_of_page_def team_b_backend_def team_b_page_def order_desc_def
        select_feedback_def feedback_policies_def on_active_page_def permitted_def
        select_feedback_pages_def feedback_pages_policies_def owns_def entry_def)
  from review_newest_first_labelled [OF h, of initial_review_view] f
  have "render_review False (snd (fetchPageAndFeedback 2 10 team_b_backend initial_review_view))
       = ReviewPage team_b_page
           (labelled [entry 2 ''third'' 40, entry 3 ''second'' 30, entry 1 ''first'' 20])"
    by auto
  with h show ?thesis
    by (simp add: labelled_def enumerate_eq_zip upt_rec)
qed




section \<open>The public submission view, verified\<close>

lemma active_page_by_slug_none:
  assumes "\<not> list_ex (\<lambda>r. slug r = s \<and> is_active r) (feedback_pages st)"
  shows "active_page_by_slug caller s st = Inl NotSingleRow"
proof -
  from assms
  have "filter (\<lambda>r. slug r = s \<and> is_active r) (select_feedback_pages caller st) = []"
    by (auto simp: select_feedback_pages_def list_ex_iff filter_empty_conv)
  then show ?thesis
    by (simp add: active_page_by_slug_def single_Nil)
qed

lemma active_page_by_slug_Inr:
  assumes "active_page_by_slug caller s st = Inr p"
  shows "slug p = s \<and> is_active p \<and> p \<in> set (feedback_pages st)"
proof -
  from assms
  have "filter (\<lambda>r. slug r = s \<and> is_active r) (select_feedback_pages caller st) = [p]"
    unfolding active_page_by_slug_def by (rule single_Inr)
  then have "p \<in> set (filter (\<lambda>r. slug r = s \<and> is_active r) (select_feedback_pages caller st))"
    by simp
  then show ?thesis
    by (simp add: select_feedback_pages_def)
qed

lemma on_active_page_iff:
  "on_active_page st caller f \<longleftrightarrow>
     list_ex (\<lambda>r. feedback_page_id f = Some (page_id r) \<and> is_active r) (feedback_pages st)"
  by (cases "feedback_page_id f")
    (auto simp: on_active_page_def select_feedback_pages_def permitted_pages_select list_ex_iff)

lemma permitted_feedback:
  "permitted (feedback_policies st) cmd caller f \<longleftrightarrow>
     (cmd = Select \<or> cmd = Insert) \<and> on_active_page st caller f"
  by (cases cmd) (simp_all add: permitted_def feedback_policies_def)

lemma insert_feedback_denied:
  assumes "\<not> list_ex (\<lambda>r. fi_feedback_page_id ins = Some (page_id r) \<and> is_active r)
               (feedback_pages st)"
  shows "insert_feedback caller new_id now ins st = Inl RlsViolation"
  using assms by (simp add: insert_feedback_def permitted_feedback on_active_page_iff)

lemma insert_feedback_Inr:
  assumes "insert_feedback caller new_id now ins st = Inr st'"
  shows "list_ex (\<lambda>r. fi_feedback_page_id ins = Some (page_id r) \<and> is_active r)
           (feedback_pages st)"
    and "st' = st\<lparr>feedback := feedback st @
                  [\<lparr>fb_id = new_id, message = fi_message ins,
                    feedback_page_id = fi_feedback_page_id ins, fb_created_at = now\<rparr>]\<rparr>"
  using assms
  by (auto simp: insert_feedback_def permitted_feedback on_active_page_iff Let_def
      split: if_splits)

lemma fetchPage_not_found:
  assumes "\<not> list_ex (\<lambda>r. slug r = s \<and> is_active r) (feedback_pages (db b))"
  shows "snd (fetchPage caller (Some s) b v) = v\<lparr>pub_loading := False\<rparr>"
    and "db (fst (fetchPage caller (Some s) b v)) = db b"
proof -
  have "active_page_by_slug caller s (db (sent (SelectPageBySlug s) b)) = Inl NotSingleRow"
    using active_page_by_slug_none [of s "db b" caller] assms by (simp add: sent_def)
  then show "snd (fetchPage caller (Some s) b v) = v\<lparr>pub_loading := False\<rparr>"
    and "db (fst (fetchPage caller (Some s) b v)) = db b"
    by (simp_all add: fetchPage_def Let_def sent_def)
qed

lemma fetchPage_found:
  assumes "pub_page v = None" and "pub_page (snd (fetchPage caller sp b v)) = Some p"
  shows "sp = Some (slug p) \<and> is_active p \<and> p \<in> set (feedback_pages (db b))"
proof (cases sp)
  case None
  with assms show ?thesis by (simp add: fetchPage_def)
next
  case (Some s)
  show ?thesis
  proof (cases "active_page_by_slug caller s (db (sent (SelectPageBySlug s) b))")
    case (Inl err)
    with Some assms show ?thesis
      by (simp add: fetchPage_def Let_def split: if_splits)
  next
    case (Inr q)
    with Some assms have "q = p"
      by (simp add: fetchPage_def Let_def split: if_splits)
    with Inr have "active_page_by_slug caller s (db b) = Inr p"
      by (simp add: sent_def)
    from active_page_by_slug_Inr [OF this] Some show ?thesis
      by simp
  qed
qed

lemma submitFeedback_denied:
  assumes "trim (pub_message v) \<noteq> []"
    and "\<not> list_ex (\<lambda>r. map_option page_id (pub_page v) = Some (page_id r) \<and> is_active r)
             (feedback_pages (db b))"
  shows "submitFeedback caller new_id now b v
         = (sent (InsertFeedback \<lparr>fi_message = trim (pub_message v),
                                   fi_feedback_page_id = map_option page_id (pub_page v)\<rparr>) b,
            v\<lparr>pub_toasts := pub_toasts v @ [submit_failed], pub_submitting := False\<rparr>)"
proof -
  let ?ins = "\<lparr>fi_message = trim (pub_message v),
               fi_feedback_page_id = map_option page_id (pub_page v)\<rparr>"
  have "insert_feedback caller new_id now ?ins (db (sent (InsertFeedback ?ins) b))
          = Inl RlsViolation"
    using assms(2) by (intro insert_feedback_denied) (simp add: sent_def)
  with assms(1) show ?thesis
    by (simp add: submitFeedback_def Let_def)
qed



lemma select_feedback_iff:
  "f \<in> set (select_feedback caller st) \<longleftrightarrow>
     f \<in> set (feedback st)
     \<and> list_ex (\<lambda>r. feedback_page_id f = Some (page_id r) \<and> is_active r) (feedback_pages st)"
  by (simp add: select_feedback_def permitted_feedback on_active_page_iff)

text \<open>
  What holds of the public view. With no active row of the given slug (no such slug, or
  the page switched off) \<^verbatim>\<open>fetchPage\<close> leaves the view as it was but for the loading
  flag, so a view that holds no page renders the same not-found screen in both cases; a
  page it loads has that slug and is active. For any caller, an anonymous one included,
  the policies let a feedback row be read only if its page is active; an insert for a
  page that is inactive or absent is refused with the store unchanged, and an accepted
  insert adds the one complete row. \<^verbatim>\<open>submitFeedback\<close> then shows "Failed to submit
  feedback".
\<close>

lemma public_view_without_page:
  "(\<not> list_ex (\<lambda>r. slug r = s \<and> is_active r) (feedback_pages (db b)) \<longrightarrow>
       snd (fetchPage caller (Some s) b v) = v\<lparr>pub_loading := False\<rparr>
       \<and> db (fst (fetchPage caller (Some s) b v)) = db b
       \<and> (pub_page v = None \<longrightarrow>
            render_public (snd (fetchPage caller (Some s) b v)) = PublicNotFound))
   \<and> (pub_page v = None \<and> pub_page (snd (fetchPage caller sp b v)) = Some p \<longrightarrow>
        sp = Some (slug p) \<and> is_active p \<and> p \<in> set (feedback_pages (db b)))
   \<and> (permitted (feedback_policies st) Select caller f \<longrightarrow>
        list_ex (\<lambda>r. feedback_page_id f = Some (page_id r) \<and> is_active r) (feedback_pages st))
   \<and> (\<not> list_ex (\<lambda>r. fi_feedback_page_id ins = Some (page_id r) \<and> is_active r)
           (feedback_pages st) \<longrightarrow>
        insert_feedback caller new_id now ins st = Inl RlsViolation)
   \<and> (insert_feedback caller new_id now ins st = Inr st' \<longrightarrow>
        list_ex (\<lambda>r. fi_feedback_page_id ins = Some (page_id r) \<and> is_active r)
          (feedback_pages st)
        \<and> st' = st\<lparr>feedback := feedback st @
                    [\<lparr>fb_id = new_id, message = fi_message ins,
                      feedback_page_id = fi_feedback_page_id ins, fb_created_at = now\<rparr>]\<rparr>)
   \<and> (trim (pub_message v) \<noteq> []
        \<and> \<not> list_ex (\<lambda>r. map_option page_id (pub_page v) = Some (page_id r) \<and> is_active r)
              (feedback_pages (db b)) \<longrightarrow>
        db (fst (submitFeedback caller new_id now b v)) = db b
        \<and> snd (submitFeedback caller new_id now b v)
            = v\<lparr>pub_toasts := pub_toasts v @ [submit_failed], pub_submitting := False\<rparr>)"
proof -
  have 1: "\<not> list_ex (\<lambda>r. slug r = s \<and> is_active r) (feedback_pages (db b)) \<longrightarrow>
       snd (fetchPage caller (Some s) b v) = v\<lparr>pub_loading := False\<rparr>
       \<and> db (fst (fetchPage caller (Some s) b v)) = db b
       \<and> (pub_page v = None \<longrightarrow>
            render_public (snd (fetchPage caller (Some s) b v)) = PublicNotFound)"
    by (simp add: fetchPage_not_found render_public_def)
  have 2: "pub_page v = None \<and> pub_page (snd (fetchPage caller sp b v)) = Some p \<longrightarrow>
        sp = Some (slug p) \<and> is_active p \<and> p \<in> set (feedback_pages (db b))"
    using fetchPage_found [of v caller sp b p] by simp
  have 3: "permitted (feedback_policies st) Select caller f \<longrightarrow>
        list_ex (\<lambda>r. feedback_page_id f = Some (page_id r) \<and> is_active r) (feedback_pages st)"
    by (simp add: permitted_feedback on_active_page_iff)
  have 4: "\<not> list_ex (\<lambda>r. fi_feedback_page_id ins = Some (page_id r) \<and> is_active r)
           (feedback_pages st) \<longrightarrow>
        insert_feedback caller new_id now ins st = Inl RlsViolation"
    by (simp add: insert_feedback_denied)
  have 5: "insert_feedback caller new_id now ins st = Inr st' \<longrightarrow>
        list_ex (\<lambda>r. fi_feedback_page_id ins = Some (page_id r) \<and> is_active r)
          (feedback_pages st)
        \<and> st' = st\<lparr>feedback := feedback st @
                    [\<lparr>fb_id = new_id, message = fi_message ins,
                      feedback_page_id = fi_feedback_page_id ins, fb_created_at = now\<rparr>]\<rparr>"
    using insert_feedback_Inr [of caller new_id now ins st st'] by simp
  have 6: "trim (pub_message v) \<noteq> []
        \<and> \<not> list_ex (\<lambda>r. map_option page_id (pub_page v) = Some (page_id r) \<and> is_active r)
              (feedback_pages (db b)) \<longrightarrow>
        db (fst (submitFeedback caller new_id now b v)) = db b
        \<and> snd (submitFeedback caller new_id now b v)
            = v\<lparr>pub_toasts := pub_toasts v @ [submit_failed], pub_submitting := False\<rparr>"
    by (simp add: submitFeedback_denied sent_def)
  show ?thesis
    by (intro conjI) (rule 1, rule 2, rule 3, rule 4, rule 5, rule 6)
qed

lemma public_view_without_page_example:
  "\<not> list_ex (\<lambda>r. slug r = js ''team-b'' \<and> is_active r) (feedback_pages (db closed_backend))
   \<and> list_ex (\<lambda>r. slug r = js ''team-b'') (feedback_pages (db closed_backend))
   \<and> render_public (snd (fetchPage None (Some (js ''team-b'')) closed_backend initial_public_view))
       = PublicNotFound
   \<and> \<not> list_ex (\<lambda>r. slug r = js ''nowhere'') (feedback_pages (db closed_backend))
   \<and> snd (fetchPage None (Some (js ''nowhere'')) closed_backend initial_public_view)
       = snd (fetchPage None (Some (js ''team-b'')) closed_backend initial_public_view)
   \<and> insert_feedback None 4 50 \<lparr>fi_message = js ''hello'', fi_feedback_page_id = Some 10\<rparr>
        (db closed_backend) = Inl RlsViolation"
proof -
  let ?ins = "\<lparr>fi_message = js ''hello'', fi_feedback_page_id = Some 10\<rparr>"
  have h: "\<not> list_ex (\<lambda>r. slug r = js ''team-b'' \<and> is_active r)
               (feedback_pages (db closed_backend))"
    and e: "list_ex (\<lambda>r. slug r = js ''team-b'') (feedback_pages (db closed_backend))"
    and g: "\<not> list_ex (\<lambda>r. slug r = js ''nowhere'' \<and> is_active r)
               (feedback_pages (db closed_backend))"
    and g': "\<not> list_ex (\<lambda>r. slug r = js ''nowhere'') (feedback_pages (db closed_backend))"
    and i: "\<not> list_ex (\<lambda>r. fi_feedback_page_id ?ins = Some (page_id r) \<and> is_active r)
               (feedback_pages (db closed_backend))"
    by (simp_all add: closed_backend_def team_b_page_def js_def)
  have n: "pub_page initial_public_view = None"
    by (simp add: initial_public_view_def)
  from public_view_without_page
         [of "js ''team-b''" closed_backend None initial_public_view _ _ "db closed_backend" _
             ?ins 4 50] h n i
  have a: "snd (fetchPage None (Some (js ''team-b'')) closed_backend initial_public_view)
            = initial_public_view\<lparr>pub_loading := False\<rparr>"
    and b: "render_public
             (snd (fetchPage None (Some (js ''team-b'')) closed_backend initial_public_view))
            = PublicNotFound"
    and c: "insert_feedback None 4 50 ?ins (db closed_backend) = Inl RlsViolation"
    by blast+
  from public_view_without_page [of "js ''nowhere''" closed_backend None initial_public_view] g
  have d: "snd (fetchPage None (Some (js ''nowhere'')) closed_backend initial_public_view)
            = initial_public_view\<lparr>pub_loading := False\<rparr>"
    by blast
  from h e g' a b c d show ?thesis
    by simp
qed


end
